theory Spec2Isabelle
  imports Complex_Main
begin

section \<open>SQL values and errors\<close>

text \<open>
  A nullable SQL value is an \<open>option\<close>: \<open>None\<close> is NULL. The comparison \<open>a = b\<close> of SQL is
  three-valued: it is NULL as soon as one side is NULL. A policy expression admits a row
  only when it evaluates to true; false and NULL both reject.
\<close>

type_synonym timestamptz = nat

definition sql_eq :: "'a option \<Rightarrow> 'a option \<Rightarrow> bool option" where
  "sql_eq a b = (case a of None \<Rightarrow> None | Some x \<Rightarrow> (case b of None \<Rightarrow> None | Some y \<Rightarrow> Some (x = y)))"

definition is_true :: "bool option \<Rightarrow> bool" where
  "is_true v = (v = Some True)"

text \<open>
  The errors the statements of the migrations and the policies can raise:
  \<^item> \<open>RlsViolation\<close>: "new row violates row-level security policy";
  \<^item> \<open>CardinalityViolation\<close>: "more than one row returned by a subquery used as an
    expression";
  \<^item> \<open>RaiseException m\<close>: a PL/pgSQL \<open>RAISE EXCEPTION\<close> with message \<open>m\<close>;
  \<^item> \<open>UndefinedTable n\<close>: a relation or range variable \<open>n\<close> that does not resolve;
  \<^item> \<open>UndefinedFunction n\<close>, \<open>DuplicateObject n\<close>: a missing function, an object that
    already exists.
\<close>

datatype sql_error =
    RlsViolation
  | CardinalityViolation
  | RaiseException string
  | UndefinedTable string
  | UndefinedFunction string
  | DuplicateObject string

text \<open>
  What a row-level write ends in: the row is filtered out by the USING expression (no
  error, nothing written), the statement raises, or the new row is written.
\<close>

datatype 'r write_outcome = Skipped | Raised sql_error | Written 'r

section \<open>The orders table and its client policies\<close>

text \<open>
  The columns of \<open>public.orders\<close> the migrations and the component name. The key \<open>id\<close>,
  the owner \<open>client_id\<close> and \<open>status\<close> are taken NOT NULL; the columns added by phase 20
  are nullable (\<open>DEFAULT NULL\<close>, \<open>DEFAULT FALSE\<close>). Field names carry the prefix \<open>o_\<close>
  because \<open>id\<close> is a constant of HOL and \<open>status\<close> is also a column of \<open>public.users\<close>.

  The two policies below are the ones the migrations create for clients. A write is
  modelled as admitted or not by them alone: policies the table may have for other
  roles are not among the sources.
\<close>

record order_row =
  o_id :: string
  o_client_id :: string
  o_status :: string
  o_amount :: rat
  o_supplier_id :: string
  o_not_test_order_confirmed_at :: "timestamptz option"
  o_payment_terms_confirmed_at :: "timestamptz option"
  o_client_po_confirmation_submitted_at :: "timestamptz option"
  o_client_po_uploaded :: "bool option"
  o_payment_reference :: "string option"
  o_payment_notes :: "string option"
  o_payment_submitted_at :: "timestamptz option"

text \<open>
  Policy "Clients can create own orders" (FOR INSERT):
  \<^verbatim>\<open>WITH CHECK (auth.uid() = client_id AND get_user_role() = 'CLIENT')\<close>.
  \<open>auth.uid()\<close> is NULL without an authenticated user. \<open>get_user_role()\<close> is defined
  elsewhere in the repository; its result is the parameter \<open>role\<close>. The conjuncts are
  evaluated in the order written and the first one that is not true rejects.
\<close>

definition insert_with_check :: "string option \<Rightarrow> string option \<Rightarrow> order_row \<Rightarrow> bool" where
  "insert_with_check uid role NEW =
     (if \<not> is_true (sql_eq uid (Some (o_client_id NEW))) then False
      else is_true (sql_eq role (Some ''CLIENT'')))"

definition client_insert :: "string option \<Rightarrow> string option \<Rightarrow> order_row \<Rightarrow> order_row write_outcome" where
  "client_insert uid role NEW =
     (if insert_with_check uid role NEW then Written NEW else Raised RlsViolation)"

text \<open>
  Policy "Clients can update own PO fields" as phase 21 recreates it (FOR UPDATE):
  \<^verbatim>\<open>USING (auth.uid() = client_id)\<close>
  \<^verbatim>\<open>WITH CHECK (auth.uid() = client_id
     AND status = (SELECT status FROM public.orders WHERE id = orders.id))\<close>.

  USING is evaluated on the existing row, WITH CHECK on the proposed row.

  The scalar subquery reads \<open>public.orders\<close> again; \<open>store\<close> is the list of rows that
  read returns to the principal. The read is made under the snapshot of the UPDATE
  statement, like every read of the statement. Inside the subquery the
  FROM item \<open>public.orders\<close> is itself named \<open>orders\<close>, and PostgreSQL resolves a name in
  the innermost query level that has it: both \<open>id\<close> and \<open>orders.id\<close> are the subquery's
  own row, so the WHERE clause compares each row's \<open>id\<close> with itself and keeps every row
  (\<open>id\<close> is not NULL); the subquery is the one written
  \<^verbatim>\<open>SELECT o.status FROM public.orders o WHERE o.id = o.id\<close>. To reach the row under
  check, the inner table would need an alias of its own. A scalar subquery yields NULL
  on no row, the value on one row, and raises on more than one.
\<close>

definition status_subquery :: "order_row list \<Rightarrow> sql_error + string option" where
  "status_subquery store =
     (case filter (\<lambda>orders. is_true (sql_eq (Some (o_id orders)) (Some (o_id orders)))) store of
        [] \<Rightarrow> Inr None
      | [r] \<Rightarrow> Inr (Some (o_status r))
      | _ \<Rightarrow> Inl CardinalityViolation)"

definition update_using :: "string option \<Rightarrow> order_row \<Rightarrow> bool" where
  "update_using uid OLD = is_true (sql_eq uid (Some (o_client_id OLD)))"

definition update_with_check :: "string option \<Rightarrow> order_row list \<Rightarrow> order_row \<Rightarrow> sql_error + bool" where
  "update_with_check uid store NEW =
     (if \<not> is_true (sql_eq uid (Some (o_client_id NEW))) then Inr False
      else (case status_subquery store of
              Inl e \<Rightarrow> Inl e
            | Inr s \<Rightarrow> Inr (is_true (sql_eq (Some (o_status NEW)) s))))"

text \<open>
  One row of an UPDATE issued by principal \<open>uid\<close>: \<open>OLD\<close> is the row version the
  statement updates, which is the row as currently persisted; \<open>NEW\<close> is the proposed
  row; \<open>store\<close> is what the subquery of the check reads. Under READ COMMITTED the two
  can differ: when another transaction commits a change of the row after the statement
  has taken its snapshot, the statement updates the newly committed version while its
  subquery still reads the snapshot. A row that fails USING is not updated and raises
  nothing; a row that fails WITH CHECK aborts the statement.
\<close>

definition client_update ::
  "string option \<Rightarrow> order_row list \<Rightarrow> order_row \<Rightarrow> order_row \<Rightarrow> order_row write_outcome" where
  "client_update uid store OLD NEW =
     (if \<not> update_using uid OLD then Skipped
      else (case update_with_check uid store NEW of
              Inl e \<Rightarrow> Raised e
            | Inr ok \<Rightarrow> if ok then Written NEW else Raised RlsViolation))"

text \<open>Rows used to evaluate the policies at concrete inputs.\<close>

definition order_a :: order_row where
  "order_a = \<lparr> o_id = ''o1'', o_client_id = ''c1'', o_status = ''PENDING_PO'',
     o_amount = 100, o_supplier_id = ''s1'',
     o_not_test_order_confirmed_at = None, o_payment_terms_confirmed_at = None,
     o_client_po_confirmation_submitted_at = None, o_client_po_uploaded = Some False,
     o_payment_reference = None, o_payment_notes = None, o_payment_submitted_at = None \<rparr>"

definition order_b :: order_row where
  "order_b = order_a \<lparr> o_id := ''o2'', o_amount := 250 \<rparr>"

section \<open>The user-profile guard\<close>

text \<open>
  The columns of \<open>public.users\<close> the guard reads. Every guarded column is nullable in
  the model, so that \<open>IS DISTINCT FROM\<close> (NULL is a value like any other) is plain
  inequality of options.
\<close>

record user_row =
  u_id :: string
  u_role :: "string option"
  u_verified :: "bool option"
  u_status :: "string option"
  u_kyc_status :: "string option"
  u_public_id :: "string option"
  u_date_joined :: "timestamptz option"
  u_credit_limit :: "rat option"
  u_credit_used :: "rat option"
  u_current_balance :: "rat option"
  u_rating :: "rat option"

text \<open>
  \<^verbatim>\<open>SELECT role::TEXT INTO v_caller_role FROM public.users WHERE id = auth.uid();\<close>
  Without STRICT the variable takes the first row's value, and NULL when no row matches.
\<close>

definition select_caller_role :: "user_row list \<Rightarrow> string option \<Rightarrow> string option" where
  "select_caller_role users uid =
     (case find (\<lambda>u. is_true (sql_eq (Some (u_id u)) uid)) users of
        None \<Rightarrow> None
      | Some u \<Rightarrow> u_role u)"

text \<open>The condition of the IF in front of the RAISE: one of the seven columns changes.\<close>

definition sensitive_changed :: "user_row \<Rightarrow> user_row \<Rightarrow> bool" where
  "sensitive_changed OLD NEW =
     (u_role OLD \<noteq> u_role NEW
      \<or> u_verified OLD \<noteq> u_verified NEW
      \<or> u_status OLD \<noteq> u_status NEW
      \<or> u_kyc_status OLD \<noteq> u_kyc_status NEW
      \<or> u_public_id OLD \<noteq> u_public_id NEW
      \<or> u_date_joined OLD \<noteq> u_date_joined NEW
      \<or> u_credit_limit OLD \<noteq> u_credit_limit NEW)"

text \<open>
  The body of \<open>public.enforce_safe_user_profile_update()\<close>. Its inputs are what the
  body reads: \<open>current_user\<close> as it evaluates inside the body, \<open>auth.uid()\<close>, the table
  \<open>public.users\<close>, and the trigger's OLD and NEW rows. \<open>Inr NEW\<close> is RETURN NEW, \<open>Inl\<close>
  the exception. \<open>v_caller_role = 'ADMIN'\<close> is NULL, hence not taken, when the role is
  NULL.
\<close>

definition enforce_safe_user_profile_update ::
  "string \<Rightarrow> string option \<Rightarrow> user_row list \<Rightarrow> user_row \<Rightarrow> user_row \<Rightarrow> sql_error + user_row" where
  "enforce_safe_user_profile_update current_user auth_uid users OLD NEW =
     (if current_user \<noteq> ''authenticated'' \<and> current_user \<noteq> ''anon'' then Inr NEW
      else if auth_uid = None then Inr NEW
      else let v_caller_role = select_caller_role users auth_uid in
        if is_true (sql_eq v_caller_role (Some ''ADMIN'')) then Inr NEW
        else if sensitive_changed OLD NEW
          then Inl (RaiseException ''Only safe profile fields can be updated by users'')
        else Inr NEW)"

text \<open>
  The function is declared SECURITY DEFINER. While a SECURITY DEFINER function runs,
  \<open>current_user\<close> is the owner of the function (the source says so itself, in the
  comment above its first check), whatever role issued the statement that fired the
  trigger. The trigger \<open>trg_enforce_safe_user_profile_update\<close> (BEFORE UPDATE, FOR EACH
  ROW) therefore runs the body with \<open>current_user\<close> bound to the function's owner.
  \<open>statement_role\<close> is the role the UPDATE statement runs as (\<open>authenticated\<close> or
  \<open>anon\<close> for an end-user session); the body never sees it.
\<close>

record update_context =
  function_owner :: string
  statement_role :: string
  auth_uid :: "string option"

definition trg_enforce_safe_user_profile_update ::
  "update_context \<Rightarrow> user_row list \<Rightarrow> user_row \<Rightarrow> user_row \<Rightarrow> sql_error + user_row" where
  "trg_enforce_safe_user_profile_update ctx users OLD NEW =
     enforce_safe_user_profile_update (function_owner ctx) (auth_uid ctx) users OLD NEW"

text \<open>
  The row after the BEFORE UPDATE trigger: the trigger's row when it returns, the old
  row, whole, when it raises (the statement is aborted).
\<close>

definition row_after_update :: "sql_error + user_row \<Rightarrow> user_row \<Rightarrow> user_row" where
  "row_after_update res OLD = (case res of Inl e \<Rightarrow> OLD | Inr r \<Rightarrow> r)"

text \<open>Rows and contexts used to evaluate the guard at concrete inputs.\<close>

definition user_c :: user_row where
  "user_c = \<lparr> u_id = ''u1'', u_role = Some ''CLIENT'', u_verified = Some False,
     u_status = Some ''ACTIVE'', u_kyc_status = Some ''PENDING'', u_public_id = Some ''P-1'',
     u_date_joined = Some 1700000000, u_credit_limit = Some 1000, u_credit_used = Some 0,
     u_current_balance = Some 0, u_rating = None \<rparr>"

definition user_admin :: user_row where
  "user_admin = user_c \<lparr> u_id := ''u9'', u_role := Some ''ADMIN'' \<rparr>"

definition end_user_session :: update_context where
  "end_user_session = \<lparr> function_owner = ''postgres'', statement_role = ''authenticated'',
     auth_uid = Some ''u1'' \<rparr>"

definition unknown_user_session :: update_context where
  "unknown_user_session = \<lparr> function_owner = ''postgres'', statement_role = ''authenticated'',
     auth_uid = Some ''u7'' \<rparr>"

section \<open>The confirmation workflow\<close>

text \<open>
  The state of the component \<open>DualPOFlow\<close>: its four \<open>useState\<close> cells. \<open>Confirmation\<close>
  and \<open>Pending\<close> are the step values \<open>'confirmation'\<close> (the spec's Unconfirmed) and
  \<open>'pending'\<close> (the spec's Submitted).
\<close>

datatype flow_step = Confirmation | Pending

record flow_state =
  step :: flow_step
  submitting :: bool
  isNotTestOrderConfirmed :: bool
  isPaymentTermsConfirmed :: bool

definition initial_flow_state :: flow_state where
  "initial_flow_state = \<lparr> step = Confirmation, submitting = False,
     isNotTestOrderConfirmed = False, isPaymentTermsConfirmed = False \<rparr>"

text \<open>
  JavaScript truthiness of a timestamp field of an order: a \<open>timestamptz\<close> value reaches
  the component as an ISO-8601 string, which is not empty and so truthy; NULL reaches it
  as \<open>null\<close> (or the field is \<open>undefined\<close>), which is falsy.
\<close>

definition truthy :: "timestamptz option \<Rightarrow> bool" where
  "truthy v = (case v of None \<Rightarrow> False | Some ts \<Rightarrow> True)"

definition hasSubmittedConfirmation :: "order_row \<Rightarrow> bool" where
  "hasSubmittedConfirmation currentOrder =
     (truthy (o_client_po_confirmation_submitted_at currentOrder)
      \<or> (truthy (o_not_test_order_confirmed_at currentOrder)
          \<and> truthy (o_payment_terms_confirmed_at currentOrder)))"

text \<open>
  The \<open>useEffect\<close> that restores the step: nothing without a current order, and the step
  is only ever set to \<open>'pending'\<close>.
\<close>

definition restore_effect :: "order_row option \<Rightarrow> flow_state \<Rightarrow> flow_state" where
  "restore_effect currentOrder st =
     (case currentOrder of
        None \<Rightarrow> st
      | Some ord \<Rightarrow> if hasSubmittedConfirmation ord then st\<lparr> step := Pending \<rparr> else st)"

text \<open>
  Loading the component: \<open>orders.find((item) => item.id === orderId)\<close>, then the effect
  on the initial state.
\<close>

definition load_flow :: "order_row list \<Rightarrow> string \<Rightarrow> flow_state" where
  "load_flow orders orderId =
     restore_effect (find (\<lambda>item. o_id item = orderId) orders) initial_flow_state"

text \<open>
  Modelled from the spec: the enum \<open>OrderStatus\<close> of \<open>../types/types\<close> is not among the
  sources; \<open>PENDING_ADMIN_CONFIRMATION\<close> is its member, the spec's "pending admin
  confirmation" status value.
\<close>

definition PENDING_ADMIN_CONFIRMATION :: string where
  "PENDING_ADMIN_CONFIRMATION = ''PENDING_ADMIN_CONFIRMATION''"

text \<open>
  The calls the submit handler makes on its collaborators, with their arguments, in the
  order made. The two awaited calls are the writes; each either resolves or rejects.
\<close>

record po_confirmation =
  notTestOrderConfirmedAt :: timestamptz
  paymentTermsConfirmedAt :: timestamptz
  submittedAt :: timestamptz

record order_patch =
  patch_status :: string
  patch_not_test_order_confirmed_at :: timestamptz
  patch_payment_terms_confirmed_at :: timestamptz
  patch_client_po_confirmation_submitted_at :: timestamptz

record notification =
  n_type :: string
  n_title :: string
  n_message :: string
  n_actionUrl :: string

datatype effect =
    SubmitClientPOConfirmation string po_confirmation
  | UpdateOrder string order_patch
  | AddNotification notification
  | ToastSuccess string
  | ToastError string
  | LoggerError string

text \<open>
  What the handler takes from outside: the clock (\<open>new Date().toISOString()\<close>), whether
  \<open>poConfirmationService.submitClientPOConfirmation\<close> and \<open>updateOrder\<close> resolve, and
  the translation function \<open>t\<close>. The notification store, the toast and the logger are
  local calls that return.
\<close>

record submit_env =
  now :: timestamptz
  submit_resolves :: bool
  update_resolves :: bool
  translate :: "string \<Rightarrow> string"

definition catch_effects :: "submit_env \<Rightarrow> effect list" where
  "catch_effects env =
     [LoggerError ''Failed to submit PO confirmation:'',
      ToastError (translate env ''client.po.confirmationSubmitError'')]"

text \<open>
  \<open>handleSubmitForConfirmation\<close>: the two early returns, then the \<open>try\<close> block, whose
  \<open>catch\<close> swallows a rejected write, and the \<open>finally\<close> that clears \<open>submitting\<close>. The
  result is the new component state and the calls made.
\<close>

definition handleSubmitForConfirmation ::
  "submit_env \<Rightarrow> string option \<Rightarrow> string \<Rightarrow> flow_state \<Rightarrow> flow_state \<times> effect list" where
  "handleSubmitForConfirmation env currentUser orderId st =
     (if currentUser = None then (st, [])
      else if \<not> isNotTestOrderConfirmed st \<or> \<not> isPaymentTermsConfirmed st then (st, [])
      else
        let confirmationTimestamp = now env;
            service_call = SubmitClientPOConfirmation orderId
              \<lparr> notTestOrderConfirmedAt = confirmationTimestamp,
                paymentTermsConfirmedAt = confirmationTimestamp,
                submittedAt = confirmationTimestamp \<rparr>;
            update_call = UpdateOrder orderId
              \<lparr> patch_status = PENDING_ADMIN_CONFIRMATION,
                patch_not_test_order_confirmed_at = confirmationTimestamp,
                patch_payment_terms_confirmed_at = confirmationTimestamp,
                patch_client_po_confirmation_submitted_at = confirmationTimestamp \<rparr>;
            notify_call = AddNotification
              \<lparr> n_type = ''order'',
                n_title = translate env ''notifications.poSubmittedTitle'',
                n_message = translate env ''notifications.poSubmittedMessage'',
                n_actionUrl = ''/app?tab=orders'' \<rparr>
        in
          if \<not> submit_resolves env
            then (st\<lparr> submitting := False \<rparr>, service_call # catch_effects env)
          else if \<not> update_resolves env
            then (st\<lparr> submitting := False \<rparr>, [service_call, update_call] @ catch_effects env)
          else (st\<lparr> step := Pending, submitting := False \<rparr>,
                [service_call, update_call, notify_call,
                 ToastSuccess (translate env ''client.po.confirmationSubmitted'')]))"

text \<open>The writes among the calls, and the notifications among them.\<close>

fun is_write :: "effect \<Rightarrow> bool" where
  "is_write (SubmitClientPOConfirmation oid c) = True"
| "is_write (UpdateOrder oid p) = True"
| "is_write e = False"

fun is_notification :: "effect \<Rightarrow> bool" where
  "is_notification (AddNotification n) = True"
| "is_notification e = False"

definition ready_state :: flow_state where
  "ready_state = \<lparr> step = Confirmation, submitting = False,
     isNotTestOrderConfirmed = True, isPaymentTermsConfirmed = True \<rparr>"

definition env_ok :: submit_env where
  "env_ok = \<lparr> now = 1771632000, submit_resolves = True, update_resolves = True,
     translate = (\<lambda>key. key) \<rparr>"

section \<open>The migrations\<close>

text \<open>
  The part of the database catalog the three migrations read and change. Every relation
  is in schema \<open>public\<close> and is named without it. \<open>migration_log\<close> holds the values
  of \<open>_migration_log.migration_name\<close>, the column the \<open>ON CONFLICT\<close> clauses name (it is
  taken to carry the unique constraint they need).
  \<open>tgtype\<close> is the bit mask of \<open>pg_trigger\<close>: 1 is FOR EACH ROW, 2 is BEFORE, 4 is
  INSERT, 8 is DELETE, 16 is UPDATE.
\<close>

record pg_policy =
  polname :: string
  polrelid :: string
  polcmd :: string

record pg_trigger =
  tgname :: string
  tgrelid :: string
  tgisinternal :: bool
  tgtype :: nat
  tgfoid :: string

record catalog =
  relations :: "string list"
  columns :: "(string \<times> string) list"
  policies :: "pg_policy list"
  routines :: "string list"
  triggers :: "pg_trigger list"
  migration_log :: "string list"

type_synonym statement = "catalog \<Rightarrow> sql_error + catalog"

text \<open>\<^verbatim>\<open>ALTER TABLE rel ADD COLUMN IF NOT EXISTS col ...\<close>\<close>

definition add_column_if_not_exists :: "string \<Rightarrow> string \<Rightarrow> statement" where
  "add_column_if_not_exists rel col c =
     (if rel \<notin> set (relations c) then Inl (UndefinedTable rel)
      else if (rel, col) \<in> set (columns c) then Inr c
      else Inr (c\<lparr> columns := columns c @ [(rel, col)] \<rparr>))"

text \<open>\<^verbatim>\<open>DROP POLICY IF EXISTS name ON rel\<close>\<close>

definition drop_policy_if_exists :: "string \<Rightarrow> string \<Rightarrow> statement" where
  "drop_policy_if_exists name rel c =
     Inr (c\<lparr> policies := filter (\<lambda>p. \<not> (polname p = name \<and> polrelid p = rel)) (policies c) \<rparr>)"

text \<open>
  \<^verbatim>\<open>CREATE POLICY name ON rel FOR cmd ...\<close>. \<open>qualifiers\<close> lists the range variables
  the policy's expressions qualify a column with. The expressions are resolved when the
  policy is created, against the policy's own table (and, in a subquery, its FROM
  items); a qualifier that names none of them raises "missing FROM-clause entry".
\<close>

definition create_policy :: "string \<Rightarrow> string \<Rightarrow> string \<Rightarrow> string list \<Rightarrow> statement" where
  "create_policy name rel cmd qualifiers c =
     (if rel \<notin> set (relations c) then Inl (UndefinedTable rel)
      else (case find (\<lambda>q. q \<noteq> rel) qualifiers of
              Some q \<Rightarrow> Inl (UndefinedTable q)
            | None \<Rightarrow>
                if filter (\<lambda>p. polname p = name \<and> polrelid p = rel) (policies c) \<noteq> []
                  then Inl (DuplicateObject name)
                else Inr (c\<lparr> policies := policies c @
                       [\<lparr> polname = name, polrelid = rel, polcmd = cmd \<rparr>] \<rparr>)))"

text \<open>
  \<^verbatim>\<open>INSERT INTO public._migration_log (migration_name) VALUES (name)
  ON CONFLICT (migration_name) DO NOTHING\<close>
\<close>

definition log_migration :: "string \<Rightarrow> statement" where
  "log_migration name c =
     (if ''_migration_log'' \<notin> set (relations c) then Inl (UndefinedTable ''_migration_log'')
      else if name \<in> set (migration_log c) then Inr c
      else Inr (c\<lparr> migration_log := migration_log c @ [name] \<rparr>))"

text \<open>
  The DO block of phase 18. Its query selects the names of the triggers on
  \<open>public.users\<close> that are not internal, have bit 16 of \<open>tgtype\<close> set and are not
  \<open>update_users_updated_at\<close>; the loop drops each by name.
\<close>

definition restrictive :: "pg_trigger \<Rightarrow> bool" where
  "restrictive t =
     (tgrelid t = ''users'' \<and> \<not> tgisinternal t
      \<and> and (tgtype t) 16 = 16 \<and> tgname t \<noteq> ''update_users_updated_at'')"

definition restrictive_trigger_names :: "catalog \<Rightarrow> string list" where
  "restrictive_trigger_names c = map tgname (filter restrictive (triggers c))"

definition drop_trigger_if_exists :: "string \<Rightarrow> string \<Rightarrow> catalog \<Rightarrow> catalog" where
  "drop_trigger_if_exists name rel c =
     c\<lparr> triggers := filter (\<lambda>t. \<not> (tgname t = name \<and> tgrelid t = rel)) (triggers c) \<rparr>"

fun drop_each :: "string list \<Rightarrow> catalog \<Rightarrow> catalog" where
  "drop_each [] c = c"
| "drop_each (trg # trgs) c = drop_each trgs (drop_trigger_if_exists trg ''users'' c)"

definition drop_restrictive_triggers :: statement where
  "drop_restrictive_triggers c = Inr (drop_each (restrictive_trigger_names c) c)"

text \<open>\<^verbatim>\<open>DROP FUNCTION IF EXISTS f() CASCADE\<close>: the function and the triggers that call it.\<close>

definition drop_function_if_exists_cascade :: "string \<Rightarrow> statement" where
  "drop_function_if_exists_cascade f c =
     Inr (c\<lparr> routines := removeAll f (routines c),
             triggers := filter (\<lambda>t. tgfoid t \<noteq> f) (triggers c) \<rparr>)"

text \<open>\<^verbatim>\<open>CREATE OR REPLACE FUNCTION f() ...\<close>\<close>

definition create_or_replace_function :: "string \<Rightarrow> statement" where
  "create_or_replace_function f c =
     Inr (if f \<in> set (routines c) then c else c\<lparr> routines := routines c @ [f] \<rparr>)"

text \<open>\<^verbatim>\<open>CREATE TRIGGER name ... ON rel ... EXECUTE FUNCTION f()\<close>\<close>

definition create_trigger :: "string \<Rightarrow> string \<Rightarrow> nat \<Rightarrow> string \<Rightarrow> statement" where
  "create_trigger name rel ty f c =
     (if rel \<notin> set (relations c) then Inl (UndefinedTable rel)
      else if f \<notin> set (routines c) then Inl (UndefinedFunction f)
      else if filter (\<lambda>t. tgname t = name \<and> tgrelid t = rel) (triggers c) \<noteq> []
        then Inl (DuplicateObject name)
      else Inr (c\<lparr> triggers := triggers c @
             [\<lparr> tgname = name, tgrelid = rel, tgisinternal = False, tgtype = ty, tgfoid = f \<rparr>] \<rparr>))"

text \<open>
  A migration runs its statements in order. The model stops at the first error and
  returns it; the catalog of a failed run is not used anywhere.
\<close>

fun run_script :: "statement list \<Rightarrow> statement" where
  "run_script [] c = Inr c"
| "run_script (s # ss) c = (case s c of Inl e \<Rightarrow> Inl e | Inr c' \<Rightarrow> run_script ss c')"

text \<open>
  Phase 20. Its UPDATE policy qualifies \<open>status\<close> with \<open>OLD\<close> (\<open>status = OLD.status\<close>),
  which phase 21's header records as not valid in a policy.
\<close>

definition phase20 :: statement where
  "phase20 = run_script
     [add_column_if_not_exists ''orders'' ''not_test_order_confirmed_at'',
      add_column_if_not_exists ''orders'' ''payment_terms_confirmed_at'',
      add_column_if_not_exists ''orders'' ''client_po_confirmation_submitted_at'',
      add_column_if_not_exists ''orders'' ''client_po_uploaded'',
      drop_policy_if_exists ''Clients can update own PO fields'' ''orders'',
      create_policy ''Clients can update own PO fields'' ''orders'' ''UPDATE'' [''old''],
      drop_policy_if_exists ''Clients can create own orders'' ''orders'',
      create_policy ''Clients can create own orders'' ''orders'' ''INSERT'' [],
      log_migration ''20260221_phase20_po_submission_columns_and_rls.sql'']"

text \<open>Phase 21. Its policy qualifies \<open>id\<close> with \<open>orders\<close> (\<open>orders.id\<close>).\<close>

definition phase21 :: statement where
  "phase21 = run_script
     [drop_policy_if_exists ''Clients can update own PO fields'' ''orders'',
      create_policy ''Clients can update own PO fields'' ''orders'' ''UPDATE'' [''orders''],
      log_migration ''20260221_phase21_fix_client_order_rls.sql'']"

text \<open>Phase 18. The trigger is BEFORE UPDATE FOR EACH ROW: \<open>tgtype\<close> 1 + 2 + 16.\<close>

definition phase18 :: statement where
  "phase18 = run_script
     [drop_restrictive_triggers,
      drop_function_if_exists_cascade ''restrict_user_profile_update'',
      drop_function_if_exists_cascade ''enforce_safe_profile_update'',
      drop_function_if_exists_cascade ''check_user_profile_update'',
      create_or_replace_function ''enforce_safe_user_profile_update'',
      create_trigger ''trg_enforce_safe_user_profile_update'' ''users'' 19
        ''enforce_safe_user_profile_update'',
      log_migration ''20260221_phase18_fix_user_profile_trigger.sql'']"

text \<open>
  What phase 18 leaves when it succeeds: the triggers that survive the DO block and the
  three cascades, followed by the guard's trigger; and the routines without the three
  dropped functions, with the guard function.
\<close>

definition guard_trigger :: pg_trigger where
  "guard_trigger = \<lparr> tgname = ''trg_enforce_safe_user_profile_update'', tgrelid = ''users'',
     tgisinternal = False, tgtype = 19, tgfoid = ''enforce_safe_user_profile_update'' \<rparr>"

definition phase18_triggers :: "catalog \<Rightarrow> pg_trigger list" where
  "phase18_triggers c =
     filter (\<lambda>t. \<not> (tgrelid t = ''users'' \<and> tgname t \<in> set (restrictive_trigger_names c))
               \<and> tgfoid t \<noteq> ''restrict_user_profile_update''
               \<and> tgfoid t \<noteq> ''enforce_safe_profile_update''
               \<and> tgfoid t \<noteq> ''check_user_profile_update'')
       (triggers c)"

definition phase18_routines :: "catalog \<Rightarrow> string list" where
  "phase18_routines c =
     (let r = removeAll ''check_user_profile_update''
                (removeAll ''enforce_safe_profile_update''
                  (removeAll ''restrict_user_profile_update'' (routines c)))
      in if ''enforce_safe_user_profile_update'' \<in> set r then r
         else r @ [''enforce_safe_user_profile_update''])"

definition logged :: "string \<Rightarrow> string list \<Rightarrow> string list" where
  "logged name l = (if name \<in> set l then l else l @ [name])"

text \<open>
  Two catalogs to run the migrations on: \<open>catalog0\<close> has the three tables and nothing
  else; \<open>catalog1\<close> already has everything phase 20 sets out to create (the four
  columns, the two policies, its log entry).
\<close>

definition catalog0 :: catalog where
  "catalog0 = \<lparr> relations = [''orders'', ''users'', ''_migration_log''], columns = [],
     policies = [], routines = [], triggers = [], migration_log = [] \<rparr>"

definition catalog1 :: catalog where
  "catalog1 = catalog0
     \<lparr> columns := [(''orders'', ''not_test_order_confirmed_at''),
                    (''orders'', ''payment_terms_confirmed_at''),
                    (''orders'', ''client_po_confirmation_submitted_at''),
                    (''orders'', ''client_po_uploaded'')],
       policies := [\<lparr> polname = ''Clients can update own PO fields'', polrelid = ''orders'',
                        polcmd = ''UPDATE'' \<rparr>,
                    \<lparr> polname = ''Clients can create own orders'', polrelid = ''orders'',
                        polcmd = ''INSERT'' \<rparr>],
       migration_log := [''20260221_phase20_po_submission_columns_and_rls.sql''] \<rparr>"

section \<open>Properties of the order policies\<close>

lemma status_subquery_single: "status_subquery [r] = Inr (Some (o_status r))"
  by (simp add: status_subquery_def sql_eq_def is_true_def)

lemma status_subquery_keeps_all:
  "filter (\<lambda>orders. is_true (sql_eq (Some (o_id orders)) (Some (o_id orders)))) store = store"
  by (simp add: sql_eq_def is_true_def)

lemma status_subquery_cases:
  "status_subquery store =
     (case store of [] \<Rightarrow> Inr None | [r] \<Rightarrow> Inr (Some (o_status r)) | _ \<Rightarrow> Inl CardinalityViolation)"
  unfolding status_subquery_def status_subquery_keeps_all ..

text \<open>
  Exactly which writes the two policies admit. An UPDATE is written only when the
  principal owns both the old and the proposed row and the store the check reads holds
  a single row, whose status the proposed row has.
\<close>

lemma client_insert_written_iff:
  "client_insert uid role NEW = Written r
     \<longleftrightarrow> r = NEW \<and> uid = Some (o_client_id NEW) \<and> role = Some ''CLIENT''"
  by (cases uid; cases role)
     (auto simp add: client_insert_def insert_with_check_def sql_eq_def is_true_def)

lemma client_update_written_iff:
  "client_update uid store OLD NEW = Written r
     \<longleftrightarrow> r = NEW \<and> uid = Some (o_client_id OLD) \<and> uid = Some (o_client_id NEW)
         \<and> (\<exists>cur. store = [cur] \<and> o_status NEW = o_status cur)"
proof (cases store)
  case Nil
  then show ?thesis
    by (cases uid)
       (auto simp add: client_update_def update_using_def update_with_check_def
          status_subquery_cases sql_eq_def is_true_def)
next
  case (Cons a rest)
  then show ?thesis
    by (cases uid; cases rest)
       (auto simp add: client_update_def update_using_def update_with_check_def
          status_subquery_cases sql_eq_def is_true_def)
qed

lemma update_using_owner: "update_using (Some c) OLD = (o_client_id OLD = c)"
  by (auto simp add: update_using_def sql_eq_def is_true_def)

lemma client_update_ignores_old_status:
  "client_update uid store (OLD\<lparr> o_status := s \<rparr>) NEW = client_update uid store OLD NEW"
  by (simp add: client_update_def update_using_def)

text \<open>
  When the store the subquery reads holds the row of client \<open>c\<close> with a status other
  than the proposed one, the update raises; the status recorded in \<open>OLD\<close> plays no part
  in the outcome.
\<close>

lemma status_differing_from_store_raises:
  assumes "cur \<in> set store" and "o_client_id cur = c"
    and "o_id OLD = o_id cur" and "o_client_id OLD = c"
    and "o_status NEW \<noteq> o_status cur"
  shows "(\<exists>e. client_update (Some c) store OLD NEW = Raised e)
    \<and> (\<forall>s. client_update (Some c) store (OLD\<lparr> o_status := s \<rparr>) NEW
           = client_update (Some c) store OLD NEW)"
proof -
  have using_ok: "update_using (Some c) OLD"
    using assms(4) by (simp add: update_using_owner)
  have "\<exists>e. client_update (Some c) store OLD NEW = Raised e"
  proof (cases "is_true (sql_eq (Some c) (Some (o_client_id NEW)))")
    case False
    then have "update_with_check (Some c) store NEW = Inr False"
      by (simp add: update_with_check_def)
    with using_ok show ?thesis by (simp add: client_update_def)
  next
    case owner: True
    show ?thesis
    proof (cases store)
      case Nil
      with assms(1) show ?thesis by simp
    next
      case (Cons r rest)
      show ?thesis
      proof (cases rest)
        case Nil
        with Cons assms(1) have "store = [cur]" by simp
        then have "update_with_check (Some c) store NEW = Inr False"
          using owner assms(5)
          by (simp add: update_with_check_def status_subquery_single sql_eq_def is_true_def)
        with using_ok show ?thesis by (simp add: client_update_def)
      next
        case (Cons r' rest')
        with \<open>store = r # rest\<close> have "status_subquery store = Inl CardinalityViolation"
          by (simp add: status_subquery_cases)
        then have "update_with_check (Some c) store NEW = Inl CardinalityViolation"
          using owner by (simp add: update_with_check_def)
        with using_ok show ?thesis by (simp add: client_update_def)
      qed
    qed
  qed
  then show ?thesis by (simp add: client_update_ignores_old_status)
qed

text \<open>
  C1 at its failing input. The row is persisted with status \<open>DELIVERED\<close>: a change
  committed after the client's statement took its snapshot, in which the status still
  reads \<open>PENDING_PO\<close>. The client, owner of the row, proposes \<open>PENDING_PO\<close>. The check
  compares the proposed status with the snapshot's, finds them equal, and the row is
  written: the status goes from \<open>DELIVERED\<close> back to \<open>PENDING_PO\<close>.
\<close>

theorem stale_status_written:
  "o_status (order_a\<lparr> o_status := ''DELIVERED'' \<rparr>) = ''DELIVERED''
   \<and> o_status order_a = ''PENDING_PO''
   \<and> o_client_id (order_a\<lparr> o_status := ''DELIVERED'' \<rparr>) = ''c1''
   \<and> client_update (Some ''c1'') [order_a] (order_a\<lparr> o_status := ''DELIVERED'' \<rparr>) order_a
       = Written order_a"
  by (simp add: client_update_def update_using_def update_with_check_def status_subquery_cases
      sql_eq_def is_true_def order_a_def)

text \<open>
  C2. A principal that is not the owner of the row cannot insert or update it: an INSERT
  whose \<open>client_id\<close> is not the principal's id raises, an UPDATE of a row owned by
  someone else is filtered out, and an UPDATE that proposes a row owned by someone else
  is never written. An INSERT raises as well unless the principal's role is CLIENT,
  whoever owns the new row. (No authenticated principal is \<open>uid = None\<close>.)
\<close>

theorem foreign_principal_denied:
  "(uid \<noteq> Some (o_client_id NEW) \<longrightarrow> client_insert uid role NEW = Raised RlsViolation)
   \<and> (role \<noteq> Some ''CLIENT'' \<longrightarrow> client_insert uid role NEW = Raised RlsViolation)
   \<and> (uid \<noteq> Some (o_client_id OLD) \<longrightarrow> client_update uid store OLD NEW = Skipped)
   \<and> (uid \<noteq> Some (o_client_id NEW) \<longrightarrow> (\<forall>r. client_update uid store OLD NEW \<noteq> Written r))"
  by (cases uid; cases role)
     (auto simp add: client_insert_def insert_with_check_def client_update_def update_using_def
        update_with_check_def sql_eq_def is_true_def split: sum.splits)

theorem foreign_principal_denied_witness:
  "Some ''c2'' \<noteq> Some (o_client_id order_a) \<and> Some ''ADMIN'' \<noteq> Some ''CLIENT''
   \<and> client_insert (Some ''c2'') (Some ''CLIENT'') order_a = Raised RlsViolation
   \<and> client_insert (Some ''c1'') (Some ''ADMIN'') order_a = Raised RlsViolation
   \<and> client_update (Some ''c2'') [order_a] order_a order_a = Skipped
   \<and> client_update (Some ''c1'') [order_a] order_a (order_a\<lparr> o_client_id := ''c2'' \<rparr>)
        \<noteq> Written (order_a\<lparr> o_client_id := ''c2'' \<rparr>)"
  using foreign_principal_denied [of "Some ''c2''" order_a "Some ''CLIENT''" order_a "[order_a]"]
    foreign_principal_denied [of "Some ''c1''" order_a "Some ''ADMIN''" order_a "[order_a]"]
    foreign_principal_denied [of "Some ''c1''" "order_a\<lparr> o_client_id := ''c2'' \<rparr>" "Some ''CLIENT''"
      order_a "[order_a]"]
  by (simp add: order_a_def)

text \<open>
  With two or more rows in the store the subquery raises, so every update by the owner
  of both the old and the proposed row raises, whatever it changes.
\<close>

lemma several_rows_raise:
  assumes "o_client_id OLD = c" and "o_client_id NEW = c"
  shows "client_update (Some c) (r1 # r2 # rest) OLD NEW = Raised CardinalityViolation"
  using assms
  by (simp add: client_update_def update_using_def update_with_check_def status_subquery_cases
      sql_eq_def is_true_def)

text \<open>
  C5 at its failing input. Client \<open>c1\<close> owns two orders and can read both. An update
  of the first that leaves \<open>status\<close> as it is and sets only the three confirmation
  timestamps and \<open>client_po_uploaded\<close> raises, and so does one that changes \<open>amount\<close>
  and \<open>supplier_id\<close>: the subquery of the check returns both rows.
\<close>

theorem client_po_update_raises:
  "client_update (Some ''c1'') [order_a, order_b] order_a
      (order_a\<lparr> o_not_test_order_confirmed_at := Some 1771632000,
                o_payment_terms_confirmed_at := Some 1771632000,
                o_client_po_confirmation_submitted_at := Some 1771632000,
                o_client_po_uploaded := Some True \<rparr>) = Raised CardinalityViolation
   \<and> client_update (Some ''c1'') [order_a, order_b] order_a
        (order_a\<lparr> o_amount := 1, o_supplier_id := ''s2'' \<rparr>) = Raised CardinalityViolation"
  by (simp add: client_update_def update_using_def update_with_check_def status_subquery_cases
      sql_eq_def is_true_def order_a_def order_b_def)

section \<open>Properties of the user-profile guard\<close>

lemma guard_steps:
  "enforce_safe_user_profile_update cu uid users OLD NEW =
     (if cu \<noteq> ''authenticated'' \<and> cu \<noteq> ''anon'' then Inr NEW
      else if uid = None then Inr NEW
      else if select_caller_role users uid = Some ''ADMIN'' then Inr NEW
      else if sensitive_changed OLD NEW
        then Inl (RaiseException ''Only safe profile fields can be updated by users'')
      else Inr NEW)"
  by (cases "select_caller_role users uid")
     (simp_all add: enforce_safe_user_profile_update_def sql_eq_def is_true_def Let_def)

lemma select_caller_role_no_row:
  assumes "uid \<notin> u_id ` set users"
  shows "select_caller_role users (Some uid) = None"
proof -
  from assms have "find (\<lambda>u. is_true (sql_eq (Some (u_id u)) (Some uid))) users = None"
    by (auto simp add: find_None_iff sql_eq_def is_true_def)
  then show ?thesis by (simp add: select_caller_role_def)
qed

text \<open>
  What the body of the guard does once it is past its three bypasses: a change of a
  guarded column raises, and a change of \<open>credit_used\<close>, \<open>current_balance\<close> and
  \<open>rating\<close> alone returns the new row.
\<close>

lemma guard_body_rejects_sensitive_change:
  assumes "cu = ''authenticated'' \<or> cu = ''anon''"
    and "select_caller_role users (Some uid) \<noteq> Some ''ADMIN''"
    and "sensitive_changed OLD NEW"
  shows "enforce_safe_user_profile_update cu (Some uid) users OLD NEW =
           Inl (RaiseException ''Only safe profile fields can be updated by users'')"
    and "row_after_update (enforce_safe_user_profile_update cu (Some uid) users OLD NEW) OLD = OLD"
  using assms by (auto simp add: guard_steps row_after_update_def)

lemma guard_allows_counters:
  "enforce_safe_user_profile_update cu uid users OLD
     (OLD\<lparr> u_credit_used := x, u_current_balance := y, u_rating := z \<rparr>)
   = Inr (OLD\<lparr> u_credit_used := x, u_current_balance := y, u_rating := z \<rparr>)"
  by (simp add: guard_steps sensitive_changed_def)

text \<open>
  Through the trigger the body runs as the owner of the function: unless the function is
  owned by \<open>authenticated\<close> or \<open>anon\<close>, every update returns the new row, whatever role
  issued it and whatever it changes.
\<close>

lemma definer_owner_bypasses_guard:
  assumes "function_owner ctx \<noteq> ''authenticated''" and "function_owner ctx \<noteq> ''anon''"
  shows "trg_enforce_safe_user_profile_update ctx users OLD NEW = Inr NEW"
  using assms by (simp add: trg_enforce_safe_user_profile_update_def guard_steps)

text \<open>
  C3 at its failing input: an end-user session (role \<open>authenticated\<close>, \<open>auth.uid()\<close> the
  CLIENT \<open>u1\<close>) updates its own row directly and sets \<open>role\<close> to ADMIN. The guard
  function is owned by \<open>postgres\<close>. The trigger returns the new row: nothing is raised
  and the role is changed.
\<close>

theorem direct_role_change_not_rejected:
  "statement_role end_user_session = ''authenticated''
   \<and> select_caller_role [user_c, user_admin] (auth_uid end_user_session) = Some ''CLIENT''
   \<and> trg_enforce_safe_user_profile_update end_user_session [user_c, user_admin] user_c
        (user_c\<lparr> u_role := Some ''ADMIN'' \<rparr>) = Inr (user_c\<lparr> u_role := Some ''ADMIN'' \<rparr>)
   \<and> u_role (row_after_update
        (trg_enforce_safe_user_profile_update end_user_session [user_c, user_admin] user_c
           (user_c\<lparr> u_role := Some ''ADMIN'' \<rparr>)) user_c) = Some ''ADMIN''"
  by (simp add: trg_enforce_safe_user_profile_update_def guard_steps end_user_session_def
      select_caller_role_def sql_eq_def is_true_def row_after_update_def user_c_def user_admin_def)



text \<open>
  The body on its own: run with \<open>current_user\<close> one of \<open>authenticated\<close> and \<open>anon\<close>,
  for an authenticated principal whose id matches no row of the users table, the role
  lookup yields NULL, the ADMIN bypass is not taken, and a change of any of the seven
  columns raises.
\<close>

lemma guard_body_unknown_caller:
  assumes "cu = ''authenticated'' \<or> cu = ''anon''"
    and "uid \<notin> u_id ` set users"
  shows "select_caller_role users (Some uid) = None
    \<and> enforce_safe_user_profile_update cu (Some uid) users OLD NEW =
          (if sensitive_changed OLD NEW
           then Inl (RaiseException ''Only safe profile fields can be updated by users'')
           else Inr NEW)
    \<and> (u_role OLD \<noteq> u_role NEW \<or> u_verified OLD \<noteq> u_verified NEW
        \<or> u_status OLD \<noteq> u_status NEW \<or> u_kyc_status OLD \<noteq> u_kyc_status NEW
        \<or> u_public_id OLD \<noteq> u_public_id NEW \<or> u_date_joined OLD \<noteq> u_date_joined NEW
        \<or> u_credit_limit OLD \<noteq> u_credit_limit NEW
        \<longrightarrow> enforce_safe_user_profile_update cu (Some uid) users OLD NEW =
              Inl (RaiseException ''Only safe profile fields can be updated by users''))"
  using assms(1) select_caller_role_no_row [OF assms(2)]
  by (auto simp add: guard_steps sensitive_changed_def)

text \<open>
  C10 at its failing input: an end-user session (role \<open>authenticated\<close>) whose
  \<open>auth.uid()\<close> \<open>u7\<close> matches no row of the users table raises the \<open>credit_limit\<close> of
  a row. The guard function is owned by \<open>postgres\<close>, so the trigger runs the body with
  that \<open>current_user\<close>; the first check returns the new row before the role is looked
  up, and the change is written.
\<close>

theorem unknown_caller_change_not_rejected:
  "statement_role unknown_user_session = ''authenticated''
   \<and> select_caller_role [user_c, user_admin] (auth_uid unknown_user_session) = None
   \<and> trg_enforce_safe_user_profile_update unknown_user_session [user_c, user_admin] user_c
        (user_c\<lparr> u_credit_limit := Some 5000 \<rparr>) = Inr (user_c\<lparr> u_credit_limit := Some 5000 \<rparr>)
   \<and> u_credit_limit (row_after_update
        (trg_enforce_safe_user_profile_update unknown_user_session [user_c, user_admin] user_c
           (user_c\<lparr> u_credit_limit := Some 5000 \<rparr>)) user_c) = Some 5000"
  by (simp add: trg_enforce_safe_user_profile_update_def guard_steps unknown_user_session_def
      select_caller_role_def sql_eq_def is_true_def row_after_update_def user_c_def user_admin_def)

section \<open>Properties of the confirmation workflow\<close>

text \<open>
  C7. Loading leaves the component in its initial state except for the step. When the
  order of the workflow is among the loaded orders, the step is \<open>Pending\<close> (Submitted)
  if \<open>client_po_confirmation_submitted_at\<close> is not NULL or both
  \<open>not_test_order_confirmed_at\<close> and \<open>payment_terms_confirmed_at\<close> are not NULL, and
  \<open>Confirmation\<close> (Unconfirmed) otherwise; it is \<open>Confirmation\<close> too while the order is
  not loaded. Loading calls no collaborator: nothing is submitted again.
\<close>

theorem load_resumes_submitted:
  "load_flow orders orderId =
     initial_flow_state \<lparr> step :=
       (case find (\<lambda>item. o_id item = orderId) orders of
          None \<Rightarrow> Confirmation
        | Some ord \<Rightarrow>
            if o_client_po_confirmation_submitted_at ord \<noteq> None
               \<or> (o_not_test_order_confirmed_at ord \<noteq> None
                   \<and> o_payment_terms_confirmed_at ord \<noteq> None)
            then Pending else Confirmation) \<rparr>"
  by (auto simp add: load_flow_def restore_effect_def hasSubmittedConfirmation_def truthy_def
      initial_flow_state_def split: option.splits)

theorem load_resumes_submitted_witness:
  "step (load_flow [order_b, order_a\<lparr> o_client_po_confirmation_submitted_at := Some 5 \<rparr>] ''o1'')
     = Pending
   \<and> step (load_flow [order_b, order_a\<lparr> o_not_test_order_confirmed_at := Some 5,
        o_payment_terms_confirmed_at := Some 6 \<rparr>] ''o1'') = Pending
   \<and> step (load_flow [order_b, order_a\<lparr> o_not_test_order_confirmed_at := Some 5 \<rparr>] ''o1'')
     = Confirmation
   \<and> step (load_flow [order_b] ''o1'') = Confirmation"
  using
    load_resumes_submitted [of "[order_b, order_a\<lparr> o_client_po_confirmation_submitted_at := Some 5 \<rparr>]"
      "''o1''"]
    load_resumes_submitted [of "[order_b, order_a\<lparr> o_not_test_order_confirmed_at := Some 5,
        o_payment_terms_confirmed_at := Some 6 \<rparr>]" "''o1''"]
    load_resumes_submitted [of "[order_b, order_a\<lparr> o_not_test_order_confirmed_at := Some 5 \<rparr>]"
      "''o1''"]
    load_resumes_submitted [of "[order_b]" "''o1''"]
  by (simp add: order_a_def order_b_def initial_flow_state_def)

text \<open>
  C6. In step \<open>Confirmation\<close> with both confirmations ticked, a submit whose two writes
  resolve sends the same instant as all three timestamps (to the confirmation service
  and in the order update), sets the status of the order update to
  \<open>PENDING_ADMIN_CONFIRMATION\<close>, adds exactly one notification and moves the step to
  \<open>Pending\<close>. With either confirmation not ticked the handler makes no call at all and
  leaves the state as it is.
\<close>

theorem submit_for_confirmation:
  "(step st = Confirmation \<and> isNotTestOrderConfirmed st \<and> isPaymentTermsConfirmed st
      \<and> currentUser \<noteq> None \<and> submit_resolves env \<and> update_resolves env
    \<longrightarrow> handleSubmitForConfirmation env currentUser orderId st =
          (st\<lparr> step := Pending, submitting := False \<rparr>,
           [SubmitClientPOConfirmation orderId
              \<lparr> notTestOrderConfirmedAt = now env, paymentTermsConfirmedAt = now env,
                submittedAt = now env \<rparr>,
            UpdateOrder orderId
              \<lparr> patch_status = PENDING_ADMIN_CONFIRMATION,
                patch_not_test_order_confirmed_at = now env,
                patch_payment_terms_confirmed_at = now env,
                patch_client_po_confirmation_submitted_at = now env \<rparr>,
            AddNotification
              \<lparr> n_type = ''order'',
                n_title = translate env ''notifications.poSubmittedTitle'',
                n_message = translate env ''notifications.poSubmittedMessage'',
                n_actionUrl = ''/app?tab=orders'' \<rparr>,
            ToastSuccess (translate env ''client.po.confirmationSubmitted'')])
        \<and> length (filter is_notification
              (snd (handleSubmitForConfirmation env currentUser orderId st))) = 1)
   \<and> (\<not> isNotTestOrderConfirmed st \<or> \<not> isPaymentTermsConfirmed st
    \<longrightarrow> handleSubmitForConfirmation env currentUser orderId st = (st, []))"
  by (auto simp add: handleSubmitForConfirmation_def Let_def)

theorem submit_for_confirmation_witness:
  "step (fst (handleSubmitForConfirmation env_ok (Some ''c1'') ''o1'' ready_state)) = Pending
   \<and> length (filter is_notification
        (snd (handleSubmitForConfirmation env_ok (Some ''c1'') ''o1'' ready_state))) = 1
   \<and> handleSubmitForConfirmation env_ok (Some ''c1'') ''o1''
        (ready_state\<lparr> isPaymentTermsConfirmed := False \<rparr>)
      = (ready_state\<lparr> isPaymentTermsConfirmed := False \<rparr>, [])"
  using submit_for_confirmation [of ready_state "Some ''c1''" env_ok "''o1''"]
    submit_for_confirmation [of "ready_state\<lparr> isPaymentTermsConfirmed := False \<rparr>" "Some ''c1''"
      env_ok "''o1''"]
  by (simp add: ready_state_def env_ok_def)

text \<open>
  C8. When one of the two writes of a submit rejects, the handler still returns: the
  calls it made are writes only, followed by the logged error and the error toast; no
  notification is added; the step is the one before the submit, and the state is the
  state before the submit with \<open>submitting\<close> cleared.
\<close>

theorem submit_failure_caught:
  assumes "currentUser \<noteq> None"
    and "isNotTestOrderConfirmed st" and "isPaymentTermsConfirmed st"
    and "\<not> submit_resolves env \<or> \<not> update_resolves env"
  shows "fst (handleSubmitForConfirmation env currentUser orderId st) = st\<lparr> submitting := False \<rparr>
    \<and> step (fst (handleSubmitForConfirmation env currentUser orderId st)) = step st
    \<and> (\<exists>calls. snd (handleSubmitForConfirmation env currentUser orderId st) =
          calls @ [LoggerError ''Failed to submit PO confirmation:'',
                   ToastError (translate env ''client.po.confirmationSubmitError'')]
          \<and> filter is_write calls = calls \<and> calls \<noteq> [])"
  using assms
  by (auto simp add: handleSubmitForConfirmation_def Let_def catch_effects_def)

theorem submit_failure_caught_witness:
  "handleSubmitForConfirmation (env_ok\<lparr> update_resolves := False \<rparr>) (Some ''c1'') ''o1'' ready_state
   = (ready_state,
      [SubmitClientPOConfirmation ''o1''
         \<lparr> notTestOrderConfirmedAt = 1771632000, paymentTermsConfirmedAt = 1771632000,
           submittedAt = 1771632000 \<rparr>,
       UpdateOrder ''o1''
         \<lparr> patch_status = PENDING_ADMIN_CONFIRMATION,
           patch_not_test_order_confirmed_at = 1771632000,
           patch_payment_terms_confirmed_at = 1771632000,
           patch_client_po_confirmation_submitted_at = 1771632000 \<rparr>,
       LoggerError ''Failed to submit PO confirmation:'',
       ToastError ''client.po.confirmationSubmitError''])"
  using submit_failure_caught [of "Some ''c1''" ready_state "env_ok\<lparr> update_resolves := False \<rparr>" "''o1''"]
  by (simp add: ready_state_def env_ok_def handleSubmitForConfirmation_def Let_def catch_effects_def)

section \<open>Properties of the migrations\<close>

lemma run_script_append:
  "run_script (xs @ ys) c = (case run_script xs c of Inl e \<Rightarrow> Inl e | Inr c' \<Rightarrow> run_script ys c')"
  by (induction xs arbitrary: c) (auto split: sum.splits)

subsection \<open>Phase 21 and phase 18 can be applied again\<close>

text \<open>
  Phase 21 in closed form, and its second application: on the catalog a successful
  application leaves, it succeeds again and leaves the same catalog, the log included.
\<close>

lemma phase21_eq:
  "phase21 c =
     (if ''orders'' \<notin> set (relations c) then Inl (UndefinedTable ''orders'')
      else if ''_migration_log'' \<notin> set (relations c) then Inl (UndefinedTable ''_migration_log'')
      else Inr (c\<lparr> policies :=
                   filter (\<lambda>p. \<not> (polname p = ''Clients can update own PO fields'' \<and> polrelid p = ''orders''))
                     (policies c)
                   @ [\<lparr> polname = ''Clients can update own PO fields'', polrelid = ''orders'',
                        polcmd = ''UPDATE'' \<rparr>],
                 migration_log :=
                   (if ''20260221_phase21_fix_client_order_rls.sql'' \<in> set (migration_log c)
                    then migration_log c
                    else migration_log c @ [''20260221_phase21_fix_client_order_rls.sql'']) \<rparr>))"
  by (simp add: phase21_def drop_policy_if_exists_def create_policy_def log_migration_def)

lemma phase21_idempotent:
  assumes "phase21 c = Inr c'"
  shows "phase21 c' = Inr c'"
  using assms by (auto simp add: phase21_eq split: if_splits)

lemma log_migration_distinct:
  assumes "log_migration name c = Inr c'" and "distinct (migration_log c)"
  shows "distinct (migration_log c')"
  using assms by (auto simp add: log_migration_def split: if_splits)

text \<open>
  Phase 18. The loop of the DO block is one filter; the statements before CREATE TRIGGER
  never raise; the whole script in closed form; and its second application.
\<close>

lemma drop_each_eq:
  "drop_each ns c =
     c\<lparr> triggers := filter (\<lambda>t. \<not> (tgrelid t = ''users'' \<and> tgname t \<in> set ns)) (triggers c) \<rparr>"
proof (induction ns arbitrary: c)
  case Nil
  then show ?case by simp
next
  case (Cons n ns)
  have "filter (\<lambda>t. \<not> (tgrelid t = ''users'' \<and> tgname t \<in> set ns))
          (filter (\<lambda>t. \<not> (tgname t = n \<and> tgrelid t = ''users'')) ts)
        = filter (\<lambda>t. \<not> (tgrelid t = ''users'' \<and> tgname t \<in> set (n # ns))) ts"
    for ts :: "pg_trigger list"
    by (induction ts) auto
  with Cons show ?case by (simp add: drop_trigger_if_exists_def)
qed

lemma phase18_prefix:
  "run_script
     [drop_restrictive_triggers,
      drop_function_if_exists_cascade ''restrict_user_profile_update'',
      drop_function_if_exists_cascade ''enforce_safe_profile_update'',
      drop_function_if_exists_cascade ''check_user_profile_update'',
      create_or_replace_function ''enforce_safe_user_profile_update''] c
   = Inr (c\<lparr> routines := phase18_routines c, triggers := phase18_triggers c \<rparr>)"
proof -
  have "filter (\<lambda>t. tgfoid t \<noteq> ''check_user_profile_update'')
          (filter (\<lambda>t. tgfoid t \<noteq> ''enforce_safe_profile_update'')
            (filter (\<lambda>t. tgfoid t \<noteq> ''restrict_user_profile_update'')
              (filter (\<lambda>t. \<not> (tgrelid t = ''users'' \<and> tgname t \<in> set ns)) ts)))
        = filter (\<lambda>t. \<not> (tgrelid t = ''users'' \<and> tgname t \<in> set ns)
               \<and> tgfoid t \<noteq> ''restrict_user_profile_update''
               \<and> tgfoid t \<noteq> ''enforce_safe_profile_update''
               \<and> tgfoid t \<noteq> ''check_user_profile_update'') ts"
    for ts :: "pg_trigger list" and ns
    by (induction ts) auto
  then show ?thesis
    by (simp add: drop_restrictive_triggers_def drop_each_eq drop_function_if_exists_cascade_def
        create_or_replace_function_def phase18_routines_def phase18_triggers_def Let_def
        del: filter_filter)
qed

lemma guard_function_kept: "''enforce_safe_user_profile_update'' \<in> set (phase18_routines c)"
  by (simp add: phase18_routines_def Let_def)

lemma phase18_eq:
  "phase18 c =
     (if ''users'' \<notin> set (relations c) then Inl (UndefinedTable ''users'')
      else if filter (\<lambda>t. tgname t = ''trg_enforce_safe_user_profile_update'' \<and> tgrelid t = ''users'')
                (phase18_triggers c) \<noteq> []
        then Inl (DuplicateObject ''trg_enforce_safe_user_profile_update'')
      else if ''_migration_log'' \<notin> set (relations c) then Inl (UndefinedTable ''_migration_log'')
      else Inr (c\<lparr> routines := phase18_routines c,
                 triggers := phase18_triggers c @ [guard_trigger],
                 migration_log :=
                   logged ''20260221_phase18_fix_user_profile_trigger.sql'' (migration_log c) \<rparr>))"
proof -
  have split: "phase18 = run_script
     ([drop_restrictive_triggers,
      drop_function_if_exists_cascade ''restrict_user_profile_update'',
      drop_function_if_exists_cascade ''enforce_safe_profile_update'',
      drop_function_if_exists_cascade ''check_user_profile_update'',
      create_or_replace_function ''enforce_safe_user_profile_update'']
      @ [create_trigger ''trg_enforce_safe_user_profile_update'' ''users'' 19
           ''enforce_safe_user_profile_update'',
         log_migration ''20260221_phase18_fix_user_profile_trigger.sql''])"
    by (simp add: phase18_def)
  show ?thesis
    unfolding split run_script_append phase18_prefix
    by (simp add: create_trigger_def log_migration_def guard_function_kept guard_trigger_def
        logged_def)
qed


lemma restrictive_guard_trigger: "restrictive guard_trigger"
  by (simp add: restrictive_def guard_trigger_def)

lemma no_restrictive_left: "filter restrictive (phase18_triggers c) = []"
proof -
  have "\<not> restrictive t" if t: "t \<in> set (phase18_triggers c)" for t
  proof
    assume r: "restrictive t"
    then have "tgrelid t = ''users''" by (simp add: restrictive_def)
    moreover from t r have "tgname t \<in> set (restrictive_trigger_names c)"
      by (auto simp add: phase18_triggers_def restrictive_trigger_names_def)
    ultimately show False using t by (simp add: phase18_triggers_def)
  qed
  then show ?thesis by (simp add: filter_empty_conv)
qed

lemma phase18_routines_stable:
  assumes "routines c' = phase18_routines c"
  shows "phase18_routines c' = phase18_routines c"
proof -
  have "''check_user_profile_update'' \<notin> set (phase18_routines c)"
    and "''enforce_safe_profile_update'' \<notin> set (phase18_routines c)"
    and "''restrict_user_profile_update'' \<notin> set (phase18_routines c)"
    by (simp_all add: phase18_routines_def Let_def)
  then have "removeAll ''check_user_profile_update''
      (removeAll ''enforce_safe_profile_update''
        (removeAll ''restrict_user_profile_update'' (routines c'))) = phase18_routines c"
    using assms by simp
  then show ?thesis
    using guard_function_kept [of c] by (simp add: phase18_routines_def [of c'] Let_def)
qed

lemma phase18_triggers_stable:
  assumes "triggers c' = phase18_triggers c @ [guard_trigger]"
    and "filter (\<lambda>t. tgname t = ''trg_enforce_safe_user_profile_update'' \<and> tgrelid t = ''users'')
           (phase18_triggers c) = []"
  shows "phase18_triggers c' = phase18_triggers c"
proof -
  have names: "restrictive_trigger_names c' = [''trg_enforce_safe_user_profile_update'']"
    using assms(1) no_restrictive_left [of c] restrictive_guard_trigger
    by (simp add: restrictive_trigger_names_def guard_trigger_def)
  have kept: "\<forall>t \<in> set (phase18_triggers c).
      \<not> (tgrelid t = ''users'' \<and> tgname t \<in> set [''trg_enforce_safe_user_profile_update''])
      \<and> tgfoid t \<noteq> ''restrict_user_profile_update''
      \<and> tgfoid t \<noteq> ''enforce_safe_profile_update''
      \<and> tgfoid t \<noteq> ''check_user_profile_update''"
  proof
    fix t assume t: "t \<in> set (phase18_triggers c)"
    from assms(2) t have "\<not> (tgname t = ''trg_enforce_safe_user_profile_update'' \<and> tgrelid t = ''users'')"
      by (simp add: filter_empty_conv)
    moreover from t have "tgfoid t \<noteq> ''restrict_user_profile_update''
      \<and> tgfoid t \<noteq> ''enforce_safe_profile_update''
      \<and> tgfoid t \<noteq> ''check_user_profile_update''"
      by (simp add: phase18_triggers_def)
    ultimately show "\<not> (tgrelid t = ''users'' \<and> tgname t \<in> set [''trg_enforce_safe_user_profile_update''])
      \<and> tgfoid t \<noteq> ''restrict_user_profile_update''
      \<and> tgfoid t \<noteq> ''enforce_safe_profile_update''
      \<and> tgfoid t \<noteq> ''check_user_profile_update''"
      by auto
  qed
  have "phase18_triggers c' =
      filter (\<lambda>t. \<not> (tgrelid t = ''users'' \<and> tgname t \<in> set [''trg_enforce_safe_user_profile_update''])
               \<and> tgfoid t \<noteq> ''restrict_user_profile_update''
               \<and> tgfoid t \<noteq> ''enforce_safe_profile_update''
               \<and> tgfoid t \<noteq> ''check_user_profile_update'')
        (phase18_triggers c @ [guard_trigger])"
    unfolding phase18_triggers_def [of c'] names assms(1) ..
  also have "\<dots> = phase18_triggers c"
    using kept by (simp add: filter_id_conv guard_trigger_def)
  finally show ?thesis .
qed

lemma phase18_idempotent:
  assumes "phase18 c = Inr c'"
  shows "phase18 c' = Inr c'"
proof -
  from assms have rel: "''users'' \<in> set (relations c)" "''_migration_log'' \<in> set (relations c)"
    and nodup: "filter (\<lambda>t. tgname t = ''trg_enforce_safe_user_profile_update'' \<and> tgrelid t = ''users'')
           (phase18_triggers c) = []"
    and c': "c' = c\<lparr> routines := phase18_routines c,
                 triggers := phase18_triggers c @ [guard_trigger],
                 migration_log :=
                   logged ''20260221_phase18_fix_user_profile_trigger.sql'' (migration_log c) \<rparr>"
    by (auto simp add: phase18_eq split: if_splits)
  have r: "phase18_routines c' = phase18_routines c"
    by (rule phase18_routines_stable) (simp add: c')
  have t: "phase18_triggers c' = phase18_triggers c"
    by (rule phase18_triggers_stable [OF _ nodup]) (simp add: c')
  have l: "logged ''20260221_phase18_fix_user_profile_trigger.sql'' (migration_log c') = migration_log c'"
    by (simp add: c' logged_def)
  have rel': "relations c' = relations c" by (simp add: c')
  show ?thesis
    unfolding phase18_eq [of c'] r t l rel'
    using rel nodup by (simp add: c')
qed

subsection \<open>Phase 20 raises on every application\<close>

text \<open>
  Phase 20 creates its UPDATE policy with the check \<open>status = OLD.status\<close>; no range
  variable \<open>old\<close> exists in a policy expression, so CREATE POLICY raises, on the first
  application and on every later one, whatever the catalog holds. (Without the table
  \<open>orders\<close> the ALTER TABLE before it raises.)
\<close>

lemma phase20_raises:
  "phase20 c =
     Inl (UndefinedTable (if ''orders'' \<in> set (relations c) then ''old'' else ''orders''))"
proof (cases "''orders'' \<in> set (relations c)")
  case False
  then show ?thesis by (simp add: phase20_def add_column_if_not_exists_def)
next
  case True
  have cols: "\<exists>c''. add_column_if_not_exists ''orders'' col c' = Inr c'' \<and> relations c'' = relations c'"
    if "''orders'' \<in> set (relations c')" for col c'
    using that by (simp add: add_column_if_not_exists_def)
  from cols [OF True] obtain c1 where
    1: "add_column_if_not_exists ''orders'' ''not_test_order_confirmed_at'' c = Inr c1"
      "relations c1 = relations c" by blast
  with True cols [of c1] obtain c2 where
    2: "add_column_if_not_exists ''orders'' ''payment_terms_confirmed_at'' c1 = Inr c2"
      "relations c2 = relations c" by auto
  with True cols [of c2] obtain c3 where
    3: "add_column_if_not_exists ''orders'' ''client_po_confirmation_submitted_at'' c2 = Inr c3"
      "relations c3 = relations c" by auto
  with True cols [of c3] obtain c4 where
    4: "add_column_if_not_exists ''orders'' ''client_po_uploaded'' c3 = Inr c4"
      "relations c4 = relations c" by auto
  have "create_policy ''Clients can update own PO fields'' ''orders'' ''UPDATE'' [''old'']
          (c4\<lparr> policies := ps \<rparr>) = Inl (UndefinedTable ''old'')" for ps
    using True 4(2) by (simp add: create_policy_def)
  then show ?thesis
    using True 1 2 3 4 by (simp add: phase20_def drop_policy_if_exists_def)
qed

text \<open>
  C9 at its failing input: phase 20 applied to the bare catalog, and applied again to a
  catalog that already holds all it creates. Both applications raise at CREATE POLICY.
\<close>

theorem phase20_rerun_raises:
  "phase20 catalog0 = Inl (UndefinedTable ''old'')
   \<and> phase20 catalog1 = Inl (UndefinedTable ''old'')"
  using phase20_raises [of catalog0] phase20_raises [of catalog1]
  by (simp add: catalog0_def catalog1_def)

end
